theory Spec2Isabelle
  imports Main
begin

section \<open>Characters and strings as Python sees them\<close>

text \<open>
  The extractor works on Python \<open>str\<close> values. A \<^typ>\<open>char\<close> stands for the code point of
  the same number, so the texts covered are those over the code points 0 to 255. On that range
  the predicates below are the ones Python's \<open>re\<close> module and \<open>str\<close> methods use:
  \<open>\<bslash>s\<close> and \<open>str.strip\<close> take the characters of \<open>str.isspace\<close>, \<open>\<bslash>d\<close> takes the decimal digits,
  \<open>\<bslash>w\<close> takes the alphanumerics and the underscore.
\<close>

definition is_space :: "char \<Rightarrow> bool" where
  "is_space c = (let n = (of_char c :: int) in (9 \<le> n \<and> n \<le> 13) \<or> (28 \<le> n \<and> n \<le> 32) \<or> n = 133 \<or> n = 160)"

definition is_digit :: "char \<Rightarrow> bool" where
  "is_digit c = (let n = (of_char c :: int) in 48 \<le> n \<and> n \<le> 57)"

definition is_word :: "char \<Rightarrow> bool" where
  "is_word c = (let n = (of_char c :: int) in
     (48 \<le> n \<and> n \<le> 57) \<or> (65 \<le> n \<and> n \<le> 90) \<or> n = 95 \<or> (97 \<le> n \<and> n \<le> 122) \<or>
     n = 170 \<or> n = 178 \<or> n = 179 \<or> n = 181 \<or> n = 185 \<or> n = 186 \<or> (188 \<le> n \<and> n \<le> 190) \<or>
     (192 \<le> n \<and> n \<le> 214) \<or> (216 \<le> n \<and> n \<le> 246) \<or> 248 \<le> n)"

definition lower_char :: "char \<Rightarrow> char" where
  "lower_char c = (let n = (of_char c :: int) in
     if (65 \<le> n \<and> n \<le> 90) \<or> (192 \<le> n \<and> n \<le> 222 \<and> n \<noteq> 215) then char_of (n + 32) else c)"

text \<open>The simple upper-case mapping, where it stays below 256 (the regex engine uses it for
  ranges under IGNORECASE only).\<close>

definition upper_char :: "char \<Rightarrow> char" where
  "upper_char c = (let n = (of_char c :: int) in
     if (97 \<le> n \<and> n \<le> 122) \<or> (224 \<le> n \<and> n \<le> 254 \<and> n \<noteq> 247) then char_of (n - 32) else c)"

definition lower :: "string \<Rightarrow> string" where
  "lower s = map lower_char s"

definition strip :: "string \<Rightarrow> string" where
  "strip s = rev (dropWhile is_space (rev (dropWhile is_space s)))"

text \<open>\<open>sub in s\<close> for two strings.\<close>

fun is_prefix :: "string \<Rightarrow> string \<Rightarrow> bool" where
  "is_prefix [] s = True"
| "is_prefix (x # xs) [] = False"
| "is_prefix (x # xs) (c # cs) = (x = c \<and> is_prefix xs cs)"

fun contains :: "string \<Rightarrow> string \<Rightarrow> bool" where
  "contains sub [] = (sub = [])"
| "contains sub (c # cs) = (is_prefix sub (c # cs) \<or> contains sub cs)"

section \<open>The regular expressions of the extractor\<close>

text \<open>
  A pattern of the source is kept as syntax: character-class items, and the operators the
  sixteen field patterns use. Every quantifier of the source is greedy and stands
  on a single character class, except the optional non-capturing groups, which are
  \<open>Alt r Eps\<close>.
\<close>

datatype item = Dig | Sp | Ch char | Rng char char

definition in_rng :: "char \<Rightarrow> char \<Rightarrow> char \<Rightarrow> bool" where
  "in_rng a b c = ((of_char a :: int) \<le> of_char c \<and> (of_char c :: int) \<le> of_char b)"

fun item_mem :: "bool \<Rightarrow> item \<Rightarrow> char \<Rightarrow> bool" where
  "item_mem ic Dig c = is_digit c"
| "item_mem ic Sp c = is_space c"
| "item_mem ic (Ch x) c = (c = x \<or> (ic \<and> lower_char c = lower_char x))"
| "item_mem ic (Rng a b) c =
     (in_rng a b c \<or> (ic \<and> (in_rng a b (lower_char c) \<or> in_rng a b (upper_char c))))"

fun cls_mem :: "bool \<Rightarrow> item list \<Rightarrow> char \<Rightarrow> bool" where
  "cls_mem ic [] c = False"
| "cls_mem ic (i # is) c = (item_mem ic i c \<or> cls_mem ic is c)"

datatype rx =
    Eps
  | Lit string
  | One "item list"
  | Rep nat "nat option" "item list"
  | Seq rx rx
  | Alt rx rx
  | Look rx
  | WordB
  | Eos

fun seqs :: "rx list \<Rightarrow> rx" where
  "seqs [] = Eps"
| "seqs [r] = r"
| "seqs (r # rs) = Seq r (seqs rs)"

fun alts :: "rx list \<Rightarrow> rx" where
  "alts [] = Eps"
| "alts [r] = r"
| "alts (r # rs) = Alt r (alts rs)"

text \<open>
  A cursor is a position in the text: the character before it (for \<open>\<bslash>b\<close>) and the text from
  it on. The matcher returns the cursors where a match of the expression can end, in the order
  in which a backtracking engine tries them: the longer repetition first, the left alternative
  first.
\<close>

type_synonym cursor = "char option \<times> string"

fun lit_match :: "bool \<Rightarrow> string \<Rightarrow> char option \<Rightarrow> string \<Rightarrow> cursor list" where
  "lit_match ic [] prev rest = [(prev, rest)]"
| "lit_match ic (x # xs) prev [] = []"
| "lit_match ic (x # xs) prev (c # cs) =
     (if item_mem ic (Ch x) c then lit_match ic xs (Some c) cs else [])"

fun rep_greedy :: "bool \<Rightarrow> item list \<Rightarrow> nat \<Rightarrow> nat option \<Rightarrow> char option \<Rightarrow> string \<Rightarrow> cursor list" where
  "rep_greedy ic cl lo hi prev [] = (if lo = 0 then [(prev, [])] else [])"
| "rep_greedy ic cl lo hi prev (c # cs) =
     (if hi \<noteq> Some 0 \<and> cls_mem ic cl c
      then rep_greedy ic cl (lo - 1) (map_option (\<lambda>h. h - 1) hi) (Some c) cs else [])
     @ (if lo = 0 then [(prev, c # cs)] else [])"

definition at_boundary :: "char option \<Rightarrow> string \<Rightarrow> bool" where
  "at_boundary prev rest =
     ((case prev of None \<Rightarrow> False | Some p \<Rightarrow> is_word p) \<noteq>
      (case rest of [] \<Rightarrow> False | c # _ \<Rightarrow> is_word c))"

fun rmatch :: "bool \<Rightarrow> rx \<Rightarrow> cursor \<Rightarrow> cursor list" where
  "rmatch ic Eps cur = [cur]"
| "rmatch ic (Lit s) cur = lit_match ic s (fst cur) (snd cur)"
| "rmatch ic (One cl) cur = rep_greedy ic cl 1 (Some 1) (fst cur) (snd cur)"
| "rmatch ic (Rep lo hi cl) cur = rep_greedy ic cl lo hi (fst cur) (snd cur)"
| "rmatch ic (Seq r1 r2) cur = concat (map (rmatch ic r2) (rmatch ic r1 cur))"
| "rmatch ic (Alt r1 r2) cur = rmatch ic r1 cur @ rmatch ic r2 cur"
| "rmatch ic (Look r) cur = (if rmatch ic r cur = [] then [] else [cur])"
| "rmatch ic WordB cur = (if at_boundary (fst cur) (snd cur) then [cur] else [])"
| "rmatch ic Eos cur = (if snd cur = [] \<or> snd cur = [CHR 0x0A] then [cur] else [])"

text \<open>
  Each pattern the extractor reads a field from has the shape \<open>pre(grp)post\<close> with one
  capturing group on the main path, so group 1 takes part in every match. \<open>re.search\<close> tries
  the start positions from left to right and, at each, the ways to match in the engine's order;
  \<open>group(1)\<close> of the first success is what the group consumed.
\<close>

record pattern =
  pre :: rx
  grp :: rx
  post :: rx

fun first_some :: "('a \<Rightarrow> 'b option) \<Rightarrow> 'a list \<Rightarrow> 'b option" where
  "first_some f [] = None"
| "first_some f (x # xs) = (case f x of Some y \<Rightarrow> Some y | None \<Rightarrow> first_some f xs)"

definition consumed :: "cursor \<Rightarrow> cursor \<Rightarrow> string" where
  "consumed c1 c2 = take (length (snd c1) - length (snd c2)) (snd c1)"

definition match_here :: "bool \<Rightarrow> pattern \<Rightarrow> cursor \<Rightarrow> string option" where
  "match_here ic p cur =
     first_some (\<lambda>c1.
       first_some (\<lambda>c2. if rmatch ic (post p) c2 = [] then None else Some (consumed c1 c2))
         (rmatch ic (grp p) c1))
       (rmatch ic (pre p) cur)"

fun search_from :: "bool \<Rightarrow> pattern \<Rightarrow> char option \<Rightarrow> string \<Rightarrow> string option" where
  "search_from ic p prev [] = match_here ic p (prev, [])"
| "search_from ic p prev (c # cs) =
     (case match_here ic p (prev, c # cs) of
        Some g \<Rightarrow> Some g
      | None \<Rightarrow> search_from ic p (Some c) cs)"

definition re_search :: "bool \<Rightarrow> pattern \<Rightarrow> string \<Rightarrow> string option" where
  "re_search ic p text = search_from ic p None text"

subsection \<open>The patterns\<close>

definition name_boundary :: rx where
  "name_boundary = Look (alts
     [Seq (Rep 1 None [Sp])
        (alts [Lit ''fet'', Lit ''faot'', Lit ''ent'', Lit ''Date'', Lit ''Birth'', Lit ''DOB'',
               Lit ''NID'', Lit ''ID'', Lit ''No'', One [Dig]]),
      Lit [CHR 0x0A],
      Eos])"

definition name_label :: "nat \<Rightarrow> rx" where
  "name_label k = seqs [Lit ''Name'', Rep 0 None [Sp], Rep 0 (Some 1) [Ch CHR '':'', Ch CHR ''.''],
     Rep k None [Sp]]"

definition name_patterns :: "pattern list" where
  "name_patterns =
   [\<lparr>pre = name_label 0,
     grp = Seq (One [Rng CHR ''A'' CHR ''Z''])
               (Rep 1 None [Rng CHR ''A'' CHR ''Z'', Sp, Ch CHR ''.'']),
     post = name_boundary\<rparr>,
    \<lparr>pre = name_label 1,
     grp = Seq (One [Rng CHR ''A'' CHR ''Z'', Rng CHR ''a'' CHR ''z''])
               (Rep 2 (Some 30) [Rng CHR ''A'' CHR ''Z'', Rng CHR ''a'' CHR ''z'', Sp, Ch CHR ''.'']),
     post = name_boundary\<rparr>,
    \<lparr>pre = seqs [WordB, Lit ''M'', One [Ch CHR ''d'', Ch CHR ''D''], Rep 0 (Some 1) [Ch CHR ''.''],
                 Rep 1 None [Sp]],
     grp = seqs [Rep 1 None [Rng CHR ''A'' CHR ''Z'', Rng CHR ''a'' CHR ''z''], Rep 1 None [Sp],
                 Rep 1 None [Rng CHR ''A'' CHR ''Z'', Rng CHR ''a'' CHR ''z''],
                 Alt (Seq (Rep 1 None [Sp]) (Rep 1 None [Rng CHR ''A'' CHR ''Z'', Rng CHR ''a'' CHR ''z'']))
                     Eps],
     post = WordB\<rparr>,
    \<lparr>pre = name_label 0,
     grp = seqs [Rep 1 None [Rng CHR ''A'' CHR ''Z''], Rep 1 None [Sp],
                 Rep 1 None [Rng CHR ''A'' CHR ''Z''],
                 Alt (Seq (Rep 1 None [Sp]) (Rep 1 None [Rng CHR ''A'' CHR ''Z''])) Eps],
     post = WordB\<rparr>]"

definition month_abbr :: rx where
  "month_abbr = alts [Lit ''Jan'', Lit ''Feb'', Lit ''Mar'', Lit ''Apr'', Lit ''May'', Lit ''Jun'',
     Lit ''Jul'', Lit ''Aug'', Lit ''Sep'', Lit ''Oct'', Lit ''Nov'', Lit ''Dec'']"

definition month_full :: rx where
  "month_full = alts [Lit ''January'', Lit ''February'', Lit ''March'', Lit ''April'', Lit ''May'',
     Lit ''June'', Lit ''July'', Lit ''August'', Lit ''September'', Lit ''October'',
     Lit ''November'', Lit ''December'']"

definition dob_label :: rx where
  "dob_label = seqs [alts [Lit ''Date of Birth'', Lit ''DOB'', Lit ''Birth''],
     Rep 0 (Some 1) [Ch CHR '':'', Ch CHR ''.''], Rep 0 None [Sp]]"

definition date_abbr :: rx where
  "date_abbr = seqs [Rep 1 (Some 2) [Dig], One [Sp, Ch CHR ''-''], month_abbr,
     One [Sp, Ch CHR ''-''], Rep 2 (Some 4) [Dig]]"

definition dob_patterns :: "pattern list" where
  "dob_patterns =
   [\<lparr>pre = dob_label, grp = date_abbr, post = Eps\<rparr>,
    \<lparr>pre = dob_label,
     grp = seqs [Rep 1 (Some 2) [Dig], One [Ch CHR ''/'', Ch CHR ''.'', Ch CHR ''-''],
                 Rep 1 (Some 2) [Dig], One [Ch CHR ''/'', Ch CHR ''.'', Ch CHR ''-''],
                 Rep 2 (Some 4) [Dig]],
     post = Eps\<rparr>,
    \<lparr>pre = Eps,
     grp = seqs [Rep 1 (Some 2) [Dig], Rep 1 None [Sp], month_full, Rep 1 None [Sp],
                 Rep 4 (Some 4) [Dig]],
     post = Eps\<rparr>,
    \<lparr>pre = Eps, grp = date_abbr, post = Eps\<rparr>]"

definition labelled_number :: rx where
  "labelled_number = seqs [One [Dig], Rep 5 (Some 18) [Dig, Sp, Ch CHR ''-''], One [Dig]]"

definition id_patterns :: "pattern list" where
  "id_patterns =
   [\<lparr>pre = seqs [Lit ''ID'', Rep 0 None [Sp], Lit ''NO'', Rep 0 (Some 1) [Ch CHR '':'', Ch CHR ''.''],
                 Rep 0 None [Sp]],
     grp = labelled_number, post = Eps\<rparr>,
    \<lparr>pre = seqs [Lit ''NID'', Rep 0 None [Sp], Lit ''No'', Rep 0 (Some 1) [Ch CHR '':'', Ch CHR ''.''],
                 Rep 0 None [Sp]],
     grp = labelled_number, post = Eps\<rparr>,
    \<lparr>pre = WordB,
     grp = seqs [Rep 3 (Some 3) [Dig], Rep 1 None [Sp], Rep 3 (Some 3) [Dig], Rep 1 None [Sp],
                 Rep 4 (Some 4) [Dig]],
     post = WordB\<rparr>,
    \<lparr>pre = WordB,
     grp = alts [Rep 10 (Some 10) [Dig], Rep 13 (Some 13) [Dig], Rep 17 (Some 17) [Dig]],
     post = WordB\<rparr>,
    \<lparr>pre = Seq (One [Ch CHR ''<'', Ch CHR ''I'']) (Lit ''BGD''),
     grp = Rep 9 None [Dig],
     post = One [Ch CHR ''<'', Dig]\<rparr>,
    \<lparr>pre = seqs [alts [Lit ''ID'', Lit ''NID'', Lit ''Number'', Lit ''No''],
                 One [Ch CHR '':'', Ch CHR ''.''], Rep 0 None [Sp]],
     grp = seqs [One [Dig], Rep 1 None [Dig, Sp, Ch CHR ''-''], One [Dig]],
     post = Eps\<rparr>,
    \<lparr>pre = WordB,
     grp = seqs [Rep 3 (Some 3) [Dig], Rep 0 (Some 1) [Sp, Ch CHR ''-''], Rep 3 (Some 3) [Dig],
                 Rep 0 (Some 1) [Sp, Ch CHR ''-''], Rep 4 (Some 4) [Dig]],
     post = WordB\<rparr>,
    \<lparr>pre = WordB, grp = Rep 10 None [Dig], post = WordB\<rparr>]"

text \<open>\<open>re.search(r, text)\<close> used as a truth value, for an expression without a group.\<close>

fun found_from :: "bool \<Rightarrow> rx \<Rightarrow> char option \<Rightarrow> string \<Rightarrow> bool" where
  "found_from ic r prev [] = (rmatch ic r (prev, []) \<noteq> [])"
| "found_from ic r prev (c # cs) =
     (rmatch ic r (prev, c # cs) \<noteq> [] \<or> found_from ic r (Some c) cs)"

definition re_found :: "bool \<Rightarrow> rx \<Rightarrow> string \<Rightarrow> bool" where
  "re_found ic r text = found_from ic r None text"

text \<open>\<open>re.sub(r'[cls]', '', text)\<close>: every character of the class is deleted.\<close>

definition re_sub_cls :: "item list \<Rightarrow> string \<Rightarrow> string" where
  "re_sub_cls cl text = filter (\<lambda>c. \<not> cls_mem False cl c) text"

section \<open>The field rules of \<open>extract_nid_fields\<close>\<close>

record nid_data =
  Name :: string
  Date_of_birth :: string
  ID_Number :: string
  Full_extracted_text :: string
  error :: "string option"

definition nid_init :: nid_data where
  "nid_init = \<lparr>Name = [], Date_of_birth = [], ID_Number = [], Full_extracted_text = [],
     error = None\<rparr>"

definition name_blacklist :: "string list" where
  "name_blacklist =
     [''NATIONAL ID CARD'', ''ID CARD'', ''BANGLADESH'', ''GOVERNMENT'',
      ''PEOPLES'', ''REPUBLIC'', ''CARD'', ''NATIONAL'', ''DATE OF BIRTH'',
      ''GOVERMENT'', ''soeezledt'', ''offthe'', ''Republic'']"

definition blacklisted :: "string \<Rightarrow> bool" where
  "blacklisted name_candidate =
     list_ex (\<lambda>b. contains (lower b) (lower name_candidate)) name_blacklist"

text \<open>
  The three \<open>for pattern in ...\<close> loops. Each takes the value the field holds when the loop
  is entered and returns the value it holds when the loop is left; \<open>break\<close> returns at once,
  \<open>continue\<close> and falling through go on with the remaining patterns.
\<close>

fun name_loop :: "string \<Rightarrow> pattern list \<Rightarrow> string \<Rightarrow> string" where
  "name_loop full_text [] cur = cur"
| "name_loop full_text (p # ps) cur =
     (case re_search False p full_text of
        None \<Rightarrow> name_loop full_text ps cur
      | Some g \<Rightarrow>
          (let name_candidate = strip g in
           if blacklisted name_candidate then name_loop full_text ps cur
           else if CHR '' '' \<in> set name_candidate \<and> 4 \<le> length name_candidate
                   \<and> length name_candidate \<le> 40
           then name_candidate
           else if length name_candidate > 5 \<and> \<not> re_found False (One [Dig]) name_candidate
           then name_loop full_text ps name_candidate
           else name_loop full_text ps cur))"

fun dob_loop :: "string \<Rightarrow> pattern list \<Rightarrow> string \<Rightarrow> string" where
  "dob_loop full_text [] cur = cur"
| "dob_loop full_text (p # ps) cur =
     (case re_search True p full_text of
        None \<Rightarrow> dob_loop full_text ps cur
      | Some g \<Rightarrow> strip g)"

definition clean_id :: "string \<Rightarrow> string" where
  "clean_id id_text = re_sub_cls [Sp, Ch CHR ''-''] id_text"

fun id_loop :: "string \<Rightarrow> pattern list \<Rightarrow> string \<Rightarrow> string" where
  "id_loop full_text [] cur = cur"
| "id_loop full_text (p # ps) cur =
     (case re_search False p full_text of
        None \<Rightarrow> id_loop full_text ps cur
      | Some id_text \<Rightarrow>
          (if length (clean_id id_text) \<in> {10, 13, 17} then clean_id id_text
           else id_loop full_text ps (clean_id id_text)))"

text \<open>From the joined text to the end of the function (the part that fills the fields).\<close>

definition extract_fields :: "string \<Rightarrow> nid_data \<Rightarrow> nid_data" where
  "extract_fields full_text d =
     (let d1 = d\<lparr>Full_extracted_text := strip full_text\<rparr>;
          d2 = d1\<lparr>Name := name_loop full_text name_patterns (Name d1)\<rparr>;
          d3 = d2\<lparr>Date_of_birth := dob_loop full_text dob_patterns (Date_of_birth d2)\<rparr>
      in d3\<lparr>ID_Number := id_loop full_text id_patterns (ID_Number d3)\<rparr>)"

section \<open>\<open>extract_nid_fields\<close>\<close>

text \<open>
  What the function gets from outside: the image argument as \<open>isinstance\<close> sees it,
  \<open>os.path.exists\<close>, and the lazily loaded reader. \<open>get_reader\<close> either raises (\<open>Inl\<close> of
  the message) or gives a reader; its \<open>readtext\<close> either raises or returns the list of result
  blocks. A result block is an arbitrary Python object: the code asks for its \<open>len\<close> and for
  its item 1.
\<close>

datatype 'i image = Path string | Ndarray 'i | Unsupported

datatype pyobj = PStr string | PList "pyobj list" | PNone

datatype pyexn = TypeError | IndexError

record 'i ocr_env =
  path_exists :: "string \<Rightarrow> bool"
  get_reader :: "string + ('i image \<Rightarrow> string + pyobj list)"

fun py_len :: "pyobj \<Rightarrow> pyexn + nat" where
  "py_len (PStr s) = Inr (length s)"
| "py_len (PList xs) = Inr (length xs)"
| "py_len PNone = Inl TypeError"

fun py_item1 :: "pyobj \<Rightarrow> pyexn + pyobj" where
  "py_item1 (PStr s) = (if 1 < length s then Inr (PStr [s ! 1]) else Inl IndexError)"
| "py_item1 (PList xs) = (if 1 < length xs then Inr (xs ! 1) else Inl IndexError)"
| "py_item1 PNone = Inl TypeError"

text \<open>The loop over the results: a block whose \<open>len\<close> or item access raises is skipped.\<close>

fun text_blocks :: "pyobj list \<Rightarrow> pyobj list" where
  "text_blocks [] = []"
| "text_blocks (result # results) =
     (case py_len result of
        Inl e \<Rightarrow> text_blocks results
      | Inr n \<Rightarrow>
          (if n \<ge> 2
           then (case py_item1 result of
                   Inl e \<Rightarrow> text_blocks results
                 | Inr text \<Rightarrow> text # text_blocks results)
           else text_blocks results))"

fun show_nat :: "nat \<Rightarrow> string" where
  "show_nat n = (if n < 10 then [char_of (48 + n)] else show_nat (n div 10) @ [char_of (48 + n mod 10)])"

fun type_name :: "pyobj \<Rightarrow> string" where
  "type_name (PStr s) = ''str''"
| "type_name (PList xs) = ''list''"
| "type_name PNone = ''NoneType''"

text \<open>\<open>" ".join(items)\<close>: a TypeError at the first item that is not a string.\<close>

fun join_from :: "nat \<Rightarrow> pyobj list \<Rightarrow> string + string list" where
  "join_from i [] = Inr []"
| "join_from i (PStr s # xs) = (case join_from (Suc i) xs of Inl e \<Rightarrow> Inl e | Inr ss \<Rightarrow> Inr (s # ss))"
| "join_from i (x # xs) =
     Inl (''sequence item '' @ show_nat i @ '': expected str instance, '' @ type_name x @ '' found'')"

fun intersperse_sp :: "string list \<Rightarrow> string" where
  "intersperse_sp [] = []"
| "intersperse_sp [s] = s"
| "intersperse_sp (s # ss) = s @ '' '' @ intersperse_sp ss"

definition join_sp :: "pyobj list \<Rightarrow> string + string" where
  "join_sp items = (case join_from 0 items of Inl e \<Rightarrow> Inl e | Inr ss \<Rightarrow> Inr (intersperse_sp ss))"

text \<open>
  The body of the outer \<open>try\<close>, in two parts: from \<open>get_reader()\<close> on, and the checks of the
  image argument before it. \<open>Inr d\<close>: the body returned \<open>d\<close>. \<open>Inl (msg, d)\<close>: an exception
  with message \<open>msg\<close> left the body when the dictionary was \<open>d\<close>.
\<close>

definition read_and_extract :: "'i ocr_env \<Rightarrow> 'i image \<Rightarrow> nid_data \<Rightarrow> (string \<times> nid_data) + nid_data" where
  "read_and_extract env img nid =
     (case get_reader env of
        Inl msg \<Rightarrow> Inl (msg, nid)
      | Inr readtext \<Rightarrow>
          (case readtext img of
             Inl msg \<Rightarrow> Inr (nid\<lparr>error := Some (''OCR reading failed: '' @ msg)\<rparr>)
           | Inr results \<Rightarrow>
               (if results = []
                then Inr (nid\<lparr>error := Some ''No text detected in the image''\<rparr>)
                else (case join_sp (text_blocks results) of
                        Inl msg \<Rightarrow> Inl (msg, nid)
                      | Inr full_text \<Rightarrow> Inr (extract_fields full_text nid)))))"

definition extract_try :: "'i ocr_env \<Rightarrow> 'i image \<Rightarrow> nid_data \<Rightarrow> (string \<times> nid_data) + nid_data" where
  "extract_try env img nid =
     (case img of
        Path f \<Rightarrow>
          if \<not> path_exists env f then Inr (nid\<lparr>error := Some ''Image file not found''\<rparr>)
          else read_and_extract env img nid
      | Ndarray a \<Rightarrow> read_and_extract env img nid
      | Unsupported \<Rightarrow> Inr (nid\<lparr>error := Some ''Unsupported image format''\<rparr>))"

text \<open>The function: \<open>Inr\<close> is a returned dictionary, \<open>Inl\<close> would be an exception that leaves it.\<close>

definition extract_nid_fields :: "'i ocr_env \<Rightarrow> 'i image \<Rightarrow> string + nid_data" where
  "extract_nid_fields env img =
     (case extract_try env img nid_init of
        Inr nid \<Rightarrow> Inr nid
      | Inl (msg, nid) \<Rightarrow> Inr (nid\<lparr>error := Some (''OCR processing failed: '' @ msg)\<rparr>))"

section \<open>The similarity block of \<open>process_image\<close>\<close>

text \<open>
  \<open>str.upper\<close> can leave the code points below 256 (at 181, 223 and 255), so an upper-cased
  string is a list of code points.
\<close>

definition upper_cp :: "char \<Rightarrow> nat list" where
  "upper_cp c = (let n = (of_char c :: nat) in
     if (97 \<le> n \<and> n \<le> 122) \<or> (224 \<le> n \<and> n \<le> 254 \<and> n \<noteq> 247) then [n - 32]
     else if n = 181 then [924]
     else if n = 223 then [83, 83]
     else if n = 255 then [376]
     else [n])"

definition upper :: "string \<Rightarrow> nat list" where
  "upper s = concat (map upper_cp s)"

datatype 'r jval = JNull | JStr string | JNum 'r

record 'r response = nid_data +
  similarity :: "(string \<times> 'r jval) list"

text \<open>\<open>d[k] = v\<close> on a dictionary kept as the list of its items in insertion order.\<close>

fun dict_set :: "string \<Rightarrow> 'v \<Rightarrow> (string \<times> 'v) list \<Rightarrow> (string \<times> 'v) list" where
  "dict_set k v [] = [(k, v)]"
| "dict_set k v ((k', v') # kvs) = (if k = k' then (k, v) # kvs else (k', v') # dict_set k v kvs)"

text \<open>
  \<open>ratio2 a b\<close> stands for \<open>round(difflib.SequenceMatcher(None, a, b).ratio(), 2)\<close>, a library
  call on floating-point numbers: \<open>Inr\<close> of the number, or \<open>Inl\<close> when the call raises. The
  body of the \<open>try\<close> returns the similarity dictionary or lets the exception out.
\<close>

definition similarity_try ::
  "(nat list \<Rightarrow> nat list \<Rightarrow> string + 'r) \<Rightarrow> string \<Rightarrow> string \<Rightarrow> nid_data \<Rightarrow> string + (string \<times> 'r jval) list" where
  "similarity_try ratio2 provided_name provided_dob result =
     (if provided_name = [] \<and> provided_dob = []
      then Inr [(''status'', JStr ''no_comparison_data_provided'')]
      else
        (let sim0 = [(''status'', JStr ''partial_comparison''), (''name_similarity'', JNull),
                     (''dob_similarity'', JNull)];
             extracted_name = strip (Name result);
             step1 =
               (if provided_name \<noteq> [] \<and> extracted_name \<noteq> []
                then (case ratio2 (upper provided_name) (upper extracted_name) of
                        Inl e \<Rightarrow> Inl e
                      | Inr r \<Rightarrow> Inr (dict_set ''name_similarity'' (JNum r) sim0))
                else if provided_name \<noteq> []
                then Inr (dict_set ''name_similarity'' (JStr ''no_extracted_name_available'') sim0)
                else Inr sim0)
         in case step1 of
              Inl e \<Rightarrow> Inl e
            | Inr sim1 \<Rightarrow>
                (let extracted_dob = strip (Date_of_birth result) in
                 if provided_dob \<noteq> [] \<and> extracted_dob \<noteq> []
                 then (case ratio2 (upper provided_dob) (upper extracted_dob) of
                         Inl e \<Rightarrow> Inl e
                       | Inr r \<Rightarrow> Inr (dict_set ''dob_similarity'' (JNum r) sim1))
                 else if provided_dob \<noteq> []
                 then Inr (dict_set ''dob_similarity'' (JStr ''no_extracted_dob_available'') sim1)
                 else Inr sim1)))"

text \<open>
  From the form fields to \<open>result["similarity"]\<close>: a form value is \<open>None\<close> when the field was
  not sent, \<open>request.form.get(k, "").strip()\<close> trims it, and the \<open>except\<close> clause replaces the
  similarity by the error status.
\<close>

definition form_get :: "string option \<Rightarrow> string" where
  "form_get v = strip (case v of None \<Rightarrow> [] | Some s \<Rightarrow> s)"

definition score ::
  "(nat list \<Rightarrow> nat list \<Rightarrow> string + 'r) \<Rightarrow> string option \<Rightarrow> string option \<Rightarrow> nid_data \<Rightarrow> string + 'r response" where
  "score ratio2 form_name form_dob result =
     (case similarity_try ratio2 (form_get form_name) (form_get form_dob) result of
        Inr sim \<Rightarrow> Inr (nid_data.extend result (response.fields sim))
      | Inl e \<Rightarrow>
          Inr (nid_data.extend result
                 (response.fields [(''status'', JStr ''error_calculating_similarity'')])))"

section \<open>Notions used to state the properties\<close>

text \<open>
  The candidates of the ID rule, in pattern order: group 1 of each pattern that matches, with
  whitespace and hyphens removed. A candidate is canonical when it has 10, 13 or 17 characters.
\<close>

definition canonical :: "string \<Rightarrow> bool" where
  "canonical c = (length c \<in> {10, 13, 17})"

definition id_candidates :: "string \<Rightarrow> pattern list \<Rightarrow> string list" where
  "id_candidates full_text ps = map clean_id (List.map_filter (\<lambda>p. re_search False p full_text) ps)"




section \<open>The sequence matcher behind the similarity ratio\<close>

text \<open>
  \<open>difflib.SequenceMatcher(None, a, b).ratio()\<close> is \<open>2.0 * M / T\<close>, where \<open>T\<close> is the number of
  elements of both sequences and \<open>M\<close> the total size of the matching blocks (and 1.0 when
  \<open>T = 0\<close>). A block is the longest common run of the two sequences, the one that starts
  first in \<open>a\<close> and then first in \<open>b\<close> among the longest; the matcher then goes on to the left
  and to the right of it. When \<open>b\<close> has 200 elements or more, an element that makes up more
  than one percent of it (plus one) is popular: no block is looked for on popular elements, but
  a block that was found is extended over equal elements of any kind, backwards first.
\<close>

definition popular :: "'a list \<Rightarrow> 'a \<Rightarrow> bool" where
  "popular b x = (200 \<le> length b \<and> length b div 100 + 1 < count_list b x)"

text \<open>The length of the common run of elements that are not popular, at the heads.\<close>

fun crun :: "('a \<Rightarrow> bool) \<Rightarrow> 'a list \<Rightarrow> 'a list \<Rightarrow> nat" where
  "crun pop (x # xs) (y # ys) = (if x = y \<and> \<not> pop y then Suc (crun pop xs ys) else 0)"
| "crun pop xs ys = 0"

text \<open>
  The search tries every start \<open>(i, j)\<close>, row by row, and keeps a run only when it is longer
  than the best so far. The run found is then extended backwards and forwards over equal
  elements.
\<close>

fun scan_b :: "('a \<Rightarrow> bool) \<Rightarrow> 'a list \<Rightarrow> 'a list \<Rightarrow> nat \<Rightarrow> nat \<Rightarrow> nat \<times> nat \<times> nat \<Rightarrow> nat \<times> nat \<times> nat" where
  "scan_b pop as [] i j best = best"
| "scan_b pop as (y # ys) i j best =
     scan_b pop as ys i (Suc j)
       (if snd (snd best) < crun pop as (y # ys) then (i, j, crun pop as (y # ys)) else best)"

fun scan_a :: "('a \<Rightarrow> bool) \<Rightarrow> 'a list \<Rightarrow> 'a list \<Rightarrow> nat \<Rightarrow> nat \<times> nat \<times> nat \<Rightarrow> nat \<times> nat \<times> nat" where
  "scan_a pop [] b i best = best"
| "scan_a pop (x # xs) b i best = scan_a pop xs b (Suc i) (scan_b pop (x # xs) b i 0 best)"

fun ext_back :: "'a list \<Rightarrow> 'a list \<Rightarrow> nat \<Rightarrow> nat \<Rightarrow> nat \<Rightarrow> nat \<times> nat \<times> nat" where
  "ext_back a b (Suc i) (Suc j) k =
     (if a ! i = b ! j then ext_back a b i j (Suc k) else (Suc i, Suc j, k))"
| "ext_back a b i j k = (i, j, k)"

function ext_fwd :: "'a list \<Rightarrow> 'a list \<Rightarrow> nat \<Rightarrow> nat \<Rightarrow> nat \<Rightarrow> nat" where
  "ext_fwd a b i j k =
     (if i + k < length a \<and> j + k < length b \<and> a ! (i + k) = b ! (j + k)
      then ext_fwd a b i j (Suc k) else k)"
  by pat_completeness auto
termination
  by (relation "measure (\<lambda>(a, b, i, j, k). length a - (i + k))") auto

declare ext_fwd.simps [simp del]

definition find_longest_match :: "('a \<Rightarrow> bool) \<Rightarrow> 'a list \<Rightarrow> 'a list \<Rightarrow> nat \<times> nat \<times> nat" where
  "find_longest_match pop a b =
     (case scan_a pop a b 0 (0, 0, 0) of
        (i0, j0, k0) \<Rightarrow>
          (case ext_back a b i0 j0 k0 of
             (i, j, k) \<Rightarrow> (i, j, ext_fwd a b i j k)))"

text \<open>
  The number of matched elements. (That the recursion ends rests on the bounds of
  \<open>find_longest_match\<close>, which are proved below.)
\<close>

function sm_matches :: "('a \<Rightarrow> bool) \<Rightarrow> 'a list \<Rightarrow> 'a list \<Rightarrow> nat" where
  "sm_matches pop a b =
     (case find_longest_match pop a b of
        (i, j, k) \<Rightarrow>
          if k = 0 then 0
          else k
            + (if 0 < i \<and> 0 < j then sm_matches pop (take i a) (take j b) else 0)
            + (if i + k < length a \<and> j + k < length b
               then sm_matches pop (drop (i + k) a) (drop (j + k) b) else 0))"
  by pat_completeness auto

text \<open>
  \<open>round(x, 2)\<close> on the double \<open>x\<close> nearest to \<open>m / t\<close>, as a number of hundredths (100 is 1.0).
  Python rounds the exact value of the double, so the result is the nearest multiple of 0.01
  to \<open>m / t\<close>, unless \<open>m / t\<close> lies exactly halfway between two of them, at \<open>(2k + 1) / 200\<close>:
  then it is the side on which the double lies that decides (or the even neighbour, when the
  double is the halfway point itself). \<open>ties_up\<close> lists the \<open>k\<close> for which the result
  is \<open>k + 1\<close>.
\<close>

definition ties_up :: "nat list" where
  "ties_up = [0, 2, 3, 5, 6, 8, 9, 11, 13, 16, 19, 22, 25, 26, 27, 31, 32, 33, 37, 38, 39, 40, 44,
     45, 46, 50, 51, 52, 53, 54, 55, 63, 64, 65, 66, 67, 68, 75, 76, 77, 78, 79, 80, 87, 88, 89,
     90, 91, 92, 93]"

definition round2 :: "nat \<Rightarrow> nat \<Rightarrow> nat" where
  "round2 m t =
     (if (200 * m) mod t = 0 \<and> odd ((200 * m) div t)
      then (let k = (200 * m) div t div 2 in if k \<in> set ties_up then k + 1 else k)
      else (200 * m + t) div (2 * t))"

definition sm_ratio2 :: "nat list \<Rightarrow> nat list \<Rightarrow> nat" where
  "sm_ratio2 a b =
     (if length a + length b = 0 then 100
      else round2 (2 * sm_matches (popular b) a b) (length a + length b))"

text \<open>\<open>round(difflib.SequenceMatcher(None, a, b).ratio(), 2)\<close>, which does not raise.\<close>

definition difflib_ratio2 :: "nat list \<Rightarrow> nat list \<Rightarrow> string + nat" where
  "difflib_ratio2 a b = Inr (sm_ratio2 a b)"

section \<open>The function over every code point\<close>












































section \<open>Properties of the loops\<close>




lemma id_candidates_Nil: "id_candidates full_text [] = []"
  by (simp add: id_candidates_def map_filter_simps)

lemma id_candidates_Cons:
  "id_candidates full_text (p # ps) =
     (case re_search False p full_text of
        None \<Rightarrow> id_candidates full_text ps
      | Some g \<Rightarrow> clean_id g # id_candidates full_text ps)"
  by (simp add: id_candidates_def map_filter_simps split: option.split)



lemma dob_loop_none:
  "\<forall>p \<in> set ps. re_search True p full_text = None \<Longrightarrow> dob_loop full_text ps cur = cur"
  by (induction ps) auto

lemma dob_loop_first:
  "i < length ps \<Longrightarrow> re_search True (ps ! i) full_text = Some g \<Longrightarrow>
   \<forall>j < i. re_search True (ps ! j) full_text = None \<Longrightarrow> dob_loop full_text ps cur = strip g"
proof (induction ps arbitrary: i)
  case Nil
  then show ?case by simp
next
  case (Cons p ps)
  show ?case
  proof (cases i)
    case 0
    then show ?thesis using Cons.prems by simp
  next
    case (Suc k)
    have "re_search True p full_text = None" using Cons.prems(3) Suc by auto
    moreover have "\<forall>j < k. re_search True (ps ! j) full_text = None"
    proof (intro allI impI)
      fix j assume "j < k"
      then have "Suc j < i" using Suc by simp
      with Cons.prems(3) have "re_search True ((p # ps) ! Suc j) full_text = None" by blast
      then show "re_search True (ps ! j) full_text = None" by simp
    qed
    moreover have "k < length ps" "re_search True (ps ! k) full_text = Some g"
      using Cons.prems Suc by auto
    ultimately have "dob_loop full_text ps cur = strip g"
      using Cons.IH [of k] by blast
    moreover note \<open>re_search True p full_text = None\<close>
    ultimately show ?thesis by simp
  qed
qed

lemma name_loop_keeps:
  "\<not> blacklisted cur \<Longrightarrow> \<not> blacklisted (name_loop full_text ps cur)"
  by (induction ps arbitrary: cur) (auto simp: Let_def split: option.splits)

lemma not_blacklisted_empty: "\<not> blacklisted []"
  by (simp add: blacklisted_def name_blacklist_def lower_def)

section \<open>The shape of a result\<close>


lemma extract_fields_name:
  "Name (extract_fields full_text nid) = name_loop full_text name_patterns (Name nid)"
  by (simp add: extract_fields_def Let_def)

lemma extract_fields_id:
  "ID_Number (extract_fields full_text nid) = id_loop full_text id_patterns (ID_Number nid)"
  by (simp add: extract_fields_def Let_def)

lemma extract_fields_dob:
  "Date_of_birth (extract_fields full_text nid) = dob_loop full_text dob_patterns (Date_of_birth nid)"
  by (simp add: extract_fields_def Let_def)

lemma extract_try_raised:
  "extract_try env img nid_init = Inl (msg, nid) \<Longrightarrow> nid = nid_init"
  by (auto simp: extract_try_def read_and_extract_def split: image.splits sum.splits if_splits)

lemma extract_try_returned:
  "extract_try env img nid_init = Inr nid \<Longrightarrow>
     (\<exists>msg. nid = nid_init\<lparr>error := Some msg\<rparr>) \<or> (\<exists>full_text. nid = extract_fields full_text nid_init)"
  by (auto simp: extract_try_def read_and_extract_def split: image.splits sum.splits if_splits)


lemma extract_nid_fields_shape:
  assumes "extract_nid_fields env img = Inr nid"
  shows "(\<exists>msg. nid = nid_init\<lparr>error := Some msg\<rparr>) \<or> (\<exists>full_text. nid = extract_fields full_text nid_init)"
proof (cases "extract_try env img nid_init")
  case (Inl a)
  obtain msg d where a: "a = (msg, d)" by (cases a)
  with Inl have "d = nid_init" using extract_try_raised by blast
  with Inl a assms show ?thesis by (auto simp: extract_nid_fields_def)
next
  case (Inr d)
  with assms have "d = nid" by (simp add: extract_nid_fields_def)
  with Inr show ?thesis using extract_try_returned by blast
qed

section \<open>Properties of the sequence matcher\<close>

lemma crun_le: "crun pop xs ys \<le> length xs \<and> crun pop xs ys \<le> length ys"
  by (induction pop xs ys rule: crun.induct) auto

lemma scan_b_bounds:
  "i + length as \<le> la \<Longrightarrow> j + length ys \<le> lb \<Longrightarrow>
   fst best + snd (snd best) \<le> la \<Longrightarrow> fst (snd best) + snd (snd best) \<le> lb \<Longrightarrow>
   fst (scan_b pop as ys i j best) + snd (snd (scan_b pop as ys i j best)) \<le> la \<and>
   fst (snd (scan_b pop as ys i j best)) + snd (snd (scan_b pop as ys i j best)) \<le> lb"
proof (induction ys arbitrary: j best)
  case Nil
  then show ?case by simp
next
  case (Cons y ys)
  have c: "crun pop as (y # ys) \<le> length as" "crun pop as (y # ys) \<le> length (y # ys)"
    using crun_le [of pop as "y # ys"] by simp_all
  show ?case
  proof (cases "snd (snd best) < crun pop as (y # ys)")
    case True
    then show ?thesis using Cons.IH [of "Suc j" "(i, j, crun pop as (y # ys))"] Cons.prems c by simp
  next
    case False
    then show ?thesis using Cons.IH [of "Suc j" best] Cons.prems by simp
  qed
qed

lemma scan_a_bounds:
  "i + length as \<le> la \<Longrightarrow> length b \<le> lb \<Longrightarrow>
   fst best + snd (snd best) \<le> la \<Longrightarrow> fst (snd best) + snd (snd best) \<le> lb \<Longrightarrow>
   fst (scan_a pop as b i best) + snd (snd (scan_a pop as b i best)) \<le> la \<and>
   fst (snd (scan_a pop as b i best)) + snd (snd (scan_a pop as b i best)) \<le> lb"
proof (induction as arbitrary: i best)
  case Nil
  then show ?case by simp
next
  case (Cons x xs)
  have "fst (scan_b pop (x # xs) b i 0 best) + snd (snd (scan_b pop (x # xs) b i 0 best)) \<le> la \<and>
   fst (snd (scan_b pop (x # xs) b i 0 best)) + snd (snd (scan_b pop (x # xs) b i 0 best)) \<le> lb"
    using scan_b_bounds [of i "x # xs" la 0 b lb best pop] Cons.prems by simp
  then show ?case using Cons.IH [of "Suc i" "scan_b pop (x # xs) b i 0 best"] Cons.prems by simp
qed

lemma ext_back_sums:
  "ext_back a b i j k = (i', j', k') \<Longrightarrow> i' + k' = i + k \<and> j' + k' = j + k"
  by (induction a b i j k rule: ext_back.induct) (auto split: if_splits)

lemma ext_fwd_step:
  "i + k < length a \<Longrightarrow> j + k < length b \<Longrightarrow> a ! (i + k) = b ! (j + k) \<Longrightarrow>
   ext_fwd a b i j k = ext_fwd a b i j (Suc k)"
  by (subst ext_fwd.simps) simp

lemma ext_fwd_stop:
  "\<not> (i + k < length a \<and> j + k < length b \<and> a ! (i + k) = b ! (j + k)) \<Longrightarrow>
   ext_fwd a b i j k = k"
  by (subst ext_fwd.simps) auto

lemma ext_fwd_bounds:
  "i + k \<le> length a \<Longrightarrow> j + k \<le> length b \<Longrightarrow>
   i + ext_fwd a b i j k \<le> length a \<and> j + ext_fwd a b i j k \<le> length b \<and> k \<le> ext_fwd a b i j k"
proof (induction a b i j k rule: ext_fwd.induct)
  case (1 a b i j k)
  show ?case
  proof (cases "i + k < length a \<and> j + k < length b \<and> a ! (i + k) = b ! (j + k)")
    case True
    then have "ext_fwd a b i j k = ext_fwd a b i j (Suc k)"
      by (simp add: ext_fwd_step)
    then show ?thesis using 1 True by simp
  next
    case False
    then have "ext_fwd a b i j k = k"
      by (rule ext_fwd_stop)
    then show ?thesis using 1(2,3) by simp
  qed
qed

lemma find_longest_match_bounds:
  assumes "find_longest_match pop a b = (i, j, k)"
  shows "i + k \<le> length a \<and> j + k \<le> length b"
proof -
  obtain i0 j0 k0 where s: "scan_a pop a b 0 (0, 0, 0) = (i0, j0, k0)" by (cases "scan_a pop a b 0 (0, 0, 0)")
  have b0: "i0 + k0 \<le> length a \<and> j0 + k0 \<le> length b"
    using scan_a_bounds [of 0 a "length a" b "length b" "(0, 0, 0)" pop] s by simp
  obtain i1 j1 k1 where e: "ext_back a b i0 j0 k0 = (i1, j1, k1)" by (cases "ext_back a b i0 j0 k0")
  have b1: "i1 + k1 \<le> length a \<and> j1 + k1 \<le> length b"
    using ext_back_sums [OF e] b0 by simp
  have "i = i1" "j = j1" "k = ext_fwd a b i1 j1 k1"
    using assms s e by (auto simp: find_longest_match_def)
  then show ?thesis using ext_fwd_bounds [of i1 k1 a j1 b] b1 by simp
qed

termination sm_matches
  apply (relation "measure (\<lambda>(pop, a, b). length a)")
  apply simp
  apply (auto dest!: find_longest_match_bounds [OF sym])
  done

declare sm_matches.simps [simp del]


lemma crun_self_ge: "crun pop xs ys \<le> crun pop ys ys \<and> crun pop xs ys \<le> crun pop xs xs"
  by (induction pop xs ys rule: crun.induct) auto

lemma scan_b_same:
  assumes "ys = drop j u" and "i < length u"
    and "fst best = fst (snd best)"
    and "\<forall>d < i. crun pop (drop d u) (drop d u) \<le> snd (snd best)"
    and "i < j \<longrightarrow> crun pop (drop i u) (drop i u) \<le> snd (snd best)"
  shows "fst (scan_b pop (drop i u) ys i j best) = fst (snd (scan_b pop (drop i u) ys i j best)) \<and>
         (\<forall>d \<le> i. crun pop (drop d u) (drop d u) \<le> snd (snd (scan_b pop (drop i u) ys i j best)))"
  using assms
proof (induction ys arbitrary: j best)
  case Nil
  then have "length u \<le> j" by simp
  then have "i < j" using Nil.prems(2) by simp
  then show ?case using Nil.prems by (auto simp: le_less)
next
  case (Cons y ys)
  have jl: "j < length u" using Cons.prems(1) by (cases "j < length u") auto
  have ys: "ys = drop (Suc j) u"
    using Cons.prems(1) by (metis drop_Suc list.sel(3) tl_drop)
  let ?k = "crun pop (drop i u) (y # ys)"
  let ?b1 = "if snd (snd best) < ?k then (i, j, ?k) else best"
  have kij: "?k = crun pop (drop i u) (drop j u)" using Cons.prems(1) by simp
  have kle: "?k \<le> crun pop (drop j u) (drop j u)" "?k \<le> crun pop (drop i u) (drop i u)"
    unfolding kij using crun_self_ge [of pop "drop i u" "drop j u"] by simp_all
  have same: "snd (snd best) < ?k \<Longrightarrow> i = j"
  proof (rule ccontr)
    assume lt: "snd (snd best) < ?k" and ne: "i \<noteq> j"
    show False
    proof (cases "j < i")
      case True
      then have "crun pop (drop j u) (drop j u) \<le> snd (snd best)" using Cons.prems(4) by simp
      then show False using kle(1) lt by simp
    next
      case False
      then have "i < j" using ne by simp
      then have "crun pop (drop i u) (drop i u) \<le> snd (snd best)" using Cons.prems(5) by simp
      then show False using kle(2) lt by simp
    qed
  qed
  have p3: "fst ?b1 = fst (snd ?b1)" using same Cons.prems(3) by simp
  have ge: "snd (snd best) \<le> snd (snd ?b1)" by simp
  have p4: "\<forall>d < i. crun pop (drop d u) (drop d u) \<le> snd (snd ?b1)"
    using Cons.prems(4) ge by (meson le_trans)
  have p5: "i < Suc j \<longrightarrow> crun pop (drop i u) (drop i u) \<le> snd (snd ?b1)"
  proof
    assume "i < Suc j"
    then consider "i < j" | "i = j" by linarith
    then show "crun pop (drop i u) (drop i u) \<le> snd (snd ?b1)"
    proof cases
      case 1
      then show ?thesis using Cons.prems(5) ge by (meson le_trans)
    next
      case 2
      then have "?k = crun pop (drop i u) (drop i u)" using kij by simp
      then show ?thesis by simp
    qed
  qed
  have "scan_b pop (drop i u) (y # ys) i j best = scan_b pop (drop i u) ys i (Suc j) ?b1" by simp
  then show ?case using Cons.IH [OF ys Cons.prems(2) p3 p4 p5] by simp
qed

lemma scan_a_same:
  assumes "as = drop i u"
    and "fst best = fst (snd best)"
    and "\<forall>d < i. crun pop (drop d u) (drop d u) \<le> snd (snd best)"
  shows "fst (scan_a pop as u i best) = fst (snd (scan_a pop as u i best))"
  using assms
proof (induction as arbitrary: i best)
  case Nil
  then show ?case by simp
next
  case (Cons x xs)
  have il: "i < length u" using Cons.prems(1) by (cases "i < length u") auto
  have xs: "xs = drop (Suc i) u"
    using Cons.prems(1) by (metis drop_Suc list.sel(3) tl_drop)
  let ?b1 = "scan_b pop (x # xs) u i 0 best"
  have b1: "fst ?b1 = fst (snd ?b1) \<and> (\<forall>d \<le> i. crun pop (drop d u) (drop d u) \<le> snd (snd ?b1))"
    using scan_b_same [of u 0 u i best pop] il Cons.prems by simp
  then have "\<forall>d < Suc i. crun pop (drop d u) (drop d u) \<le> snd (snd ?b1)" by (simp add: less_Suc_eq_le)
  then show ?case using Cons.IH [OF xs, of ?b1] b1 by simp
qed

lemma ext_back_same: "ext_back u u d d k = (0, 0, d + k)"
  by (induction d arbitrary: k) auto

lemma ext_fwd_same: "k \<le> length u \<Longrightarrow> ext_fwd u u 0 0 k = length u"
proof (induction "length u - k" arbitrary: k)
  case 0
  then have "k = length u" by simp
  then show ?case by (simp add: ext_fwd_stop)
next
  case (Suc m)
  then have "k < length u" by simp
  then have "ext_fwd u u 0 0 k = ext_fwd u u 0 0 (Suc k)" by (simp add: ext_fwd_step)
  moreover have "ext_fwd u u 0 0 (Suc k) = length u" using Suc by simp
  ultimately show ?case by simp
qed

lemma find_longest_match_same: "find_longest_match pop u u = (0, 0, length u)"
proof -
  obtain i0 j0 k0 where s: "scan_a pop u u 0 (0, 0, 0) = (i0, j0, k0)"
    by (cases "scan_a pop u u 0 (0, 0, 0)")
  have "i0 = j0" using scan_a_same [of u 0 u "(0, 0, 0)" pop] s by simp
  moreover have "i0 + k0 \<le> length u"
    using scan_a_bounds [of 0 u "length u" u "length u" "(0, 0, 0)" pop] s by simp
  ultimately show ?thesis using s
    by (simp add: find_longest_match_def ext_back_same ext_fwd_same)
qed

lemma sm_matches_same: "sm_matches pop u u = length u"
  by (subst sm_matches.simps) (simp add: find_longest_match_same)


lemma round2_one: "0 < t \<Longrightarrow> round2 t t = 100"
  by (simp add: round2_def)

lemma round2_near:
  assumes "0 < t"
  shows "\<bar>2 * int (round2 m t) * int t - 200 * int m\<bar> \<le> int t"
proof (cases "(200 * m) mod t = 0 \<and> odd ((200 * m) div t)")
  case True
  define q where "q = (200 * m) div t"
  define k where "k = q div 2"
  have qt: "q * t = 200 * m" using True div_mult_mod_eq [of "200 * m" t] by (simp add: q_def)
  have "odd q" using True by (simp add: q_def)
  then have q2: "q = 2 * k + 1" unfolding k_def by (metis odd_two_times_div_two_succ)
  have r: "round2 m t = k \<or> round2 m t = k + 1"
    using True by (auto simp: round2_def Let_def q_def k_def)
  have "int (q * t) = int (200 * m)" using qt by simp
  then have "200 * int m = 2 * int k * int t + int t"
    unfolding q2 by (simp add: algebra_simps)
  then show ?thesis using r by (auto simp: algebra_simps)
next
  case False
  define n where "n = (200 * m + t) div (2 * t)"
  define r where "r = (200 * m + t) mod (2 * t)"
  have rn: "round2 m t = n" using False by (auto simp: round2_def n_def)
  have e: "n * (2 * t) + r = 200 * m + t"
    unfolding n_def r_def by (rule div_mult_mod_eq)
  have rl: "r < 2 * t" unfolding r_def using assms by simp
  have "int (n * (2 * t) + r) = int (200 * m + t)" using e by simp
  then have "2 * int n * int t + int r = 200 * int m + int t" by simp
  moreover have "int r < 2 * int t" using rl by linarith
  moreover have "0 \<le> int r" by simp
  ultimately show ?thesis unfolding rn by (simp add: abs_le_iff) 
qed



lemma sm_matches_le: "sm_matches pop a b \<le> length a \<and> sm_matches pop a b \<le> length b"
proof (induction pop a b rule: sm_matches.induct)
  case (1 pop a b)
  obtain i j k where f: "find_longest_match pop a b = (i, j, k)"
    by (cases "find_longest_match pop a b") auto
  have bd: "i + k \<le> length a \<and> j + k \<le> length b" using find_longest_match_bounds [OF f] .
  show ?case
  proof (cases "k = 0")
    case True
    then show ?thesis using f by (subst (1 2) sm_matches.simps) simp
  next
    case k0: False
    define l where "l = (if 0 < i \<and> 0 < j then sm_matches pop (take i a) (take j b) else 0)"
    define r where "r = (if i + k < length a \<and> j + k < length b
               then sm_matches pop (drop (i + k) a) (drop (j + k) b) else 0)"
    have e: "sm_matches pop a b = k + l + r"
      using f k0 by (subst sm_matches.simps) (simp add: l_def r_def)
    have "l \<le> i \<and> l \<le> j"
    proof (cases "0 < i \<and> 0 < j")
      case True
      then show ?thesis
        using "1.IH"(1) [of i "(j, k)" j k] f k0 bd by (simp add: l_def)
    next
      case False
      then show ?thesis by (auto simp: l_def)
    qed
    moreover have "r \<le> length a - (i + k) \<and> r \<le> length b - (j + k)"
    proof (cases "i + k < length a \<and> j + k < length b")
      case True
      then show ?thesis
        using "1.IH"(2) [of i "(j, k)" j k] f k0 by (simp add: r_def)
    next
      case False
      then show ?thesis by (auto simp: r_def)
    qed
    ultimately show ?thesis using bd unfolding e by linarith
  qed
qed

lemma round2_le:
  assumes "0 < t" and "m \<le> t"
  shows "round2 m t \<le> 100"
proof -
  have "\<bar>2 * int (round2 m t) * int t - 200 * int m\<bar> \<le> int t" using round2_near [OF assms(1)] .
  then have "2 * int (round2 m t) * int t \<le> 200 * int m + int t" by linarith
  also have "\<dots> \<le> 201 * int t" using assms(2) by simp
  finally have "2 * int (round2 m t) * int t < 202 * int t" using assms(1) by simp
  then have "2 * int (round2 m t) < 202" using assms(1) by simp
  then show ?thesis by simp
qed

lemma sm_ratio2_same: "sm_ratio2 u u = 100"
proof (cases "u = []")
  case True
  then show ?thesis by (simp add: sm_ratio2_def)
next
  case False
  then have "round2 (2 * length u) (2 * length u) = 100" by (simp add: round2_one)
  moreover have "length u + length u = 2 * length u" by simp
  ultimately show ?thesis using False
    by (simp only: sm_ratio2_def sm_matches_same) simp
qed

lemma sm_ratio2_le: "sm_ratio2 a b \<le> 100"
proof (cases "length a + length b = 0")
  case True
  then show ?thesis by (simp add: sm_ratio2_def)
next
  case False
  have "2 * sm_matches (popular b) a b \<le> length a + length b"
    using sm_matches_le [of "popular b" a b] by simp
  then show ?thesis using False round2_le by (simp add: sm_ratio2_def)
qed

lemma sm_ratio2_near:
  assumes "a \<noteq> [] \<or> b \<noteq> []"
  shows "\<bar>2 * int (sm_ratio2 a b) * int (length a + length b)
          - 200 * int (2 * sm_matches (popular b) a b)\<bar> \<le> int (length a + length b)"
proof -
  have p: "0 < length a + length b" using assms by auto
  have "sm_ratio2 a b = round2 (2 * sm_matches (popular b) a b) (length a + length b)"
    using assms by (auto simp: sm_ratio2_def)
  then show ?thesis
    using round2_near [OF p, of "2 * sm_matches (popular b) a b"] by simp
qed

section \<open>What a group can capture\<close>



















section \<open>C1: the function returns, and an error result carries no field\<close>




section \<open>C2: no text detected\<close>

text \<open>
  Claim C2. When the reader returns the empty list of blocks (the image argument being an
  array, or a path that exists), the result has \<open>error\<close> equal to
  \<open>No text detected in the image\<close> and Name, Date of birth, ID Number and Full extracted text
  equal to the empty string.
\<close>

theorem no_text_detected:
  assumes "get_reader env = Inr readtext" and "readtext img = Inr []"
    and "img \<noteq> Unsupported" and "\<forall>f. img = Path f \<longrightarrow> path_exists env f"
  shows "extract_nid_fields env img =
     Inr \<lparr>Name = [], Date_of_birth = [], ID_Number = [], Full_extracted_text = [],
          error = Some ''No text detected in the image''\<rparr>"
  using assms
  by (cases img)
     (simp_all add: extract_nid_fields_def extract_try_def read_and_extract_def nid_init_def)

theorem no_text_detected_witness:
  "extract_nid_fields \<lparr>path_exists = (\<lambda>f. f = ''card.jpg''), get_reader = Inr (\<lambda>i. Inr [])\<rparr>
     (Path ''card.jpg'' :: unit image) =
   Inr \<lparr>Name = [], Date_of_birth = [], ID_Number = [], Full_extracted_text = [],
        error = Some ''No text detected in the image''\<rparr>"
  using no_text_detected
    [of "\<lparr>path_exists = (\<lambda>f. f = ''card.jpg''), get_reader = Inr (\<lambda>i. Inr [])\<rparr>"
        "\<lambda>i. Inr []" "Path ''card.jpg'' :: unit image"]
  by simp

section \<open>C4: the blacklist\<close>

text \<open>
  Claim C4. Whatever the input, the Name of the result contains no blacklisted phrase, compared
  without regard to case: a candidate that contains one is never returned as Name.
\<close>

theorem blacklisted_never_returned:
  assumes "extract_nid_fields env img = Inr nid"
  shows "\<forall>b \<in> set name_blacklist. \<not> contains (lower b) (lower (Name nid))"
proof -
  from extract_nid_fields_shape [OF assms]
  have "Name nid = [] \<or> (\<exists>t. Name nid = name_loop t name_patterns [])"
    by (auto simp: extract_fields_name nid_init_def)
  then have "\<not> blacklisted (Name nid)"
    using name_loop_keeps [OF not_blacklisted_empty] not_blacklisted_empty by auto
  then show ?thesis by (simp add: blacklisted_def list_ex_iff)
qed

text \<open>The honorific pattern finds \<open>Abdul Karim National\<close>, which the blacklist rejects.\<close>

lemma honorific_run:
  "extract_nid_fields
     \<lparr>path_exists = (\<lambda>f. True),
      get_reader = Inr (\<lambda>i. Inr [PList [PNone, PStr ''Md. Abdul Karim National ID Card Bangladesh'']])\<rparr>
     (Ndarray ()) =
   Inr \<lparr>Name = [], Date_of_birth = [], ID_Number = [],
        Full_extracted_text = ''Md. Abdul Karim National ID Card Bangladesh'', error = None\<rparr>"
  by code_simp

lemma honorific_candidate:
  "re_search False (name_patterns ! 2) ''Md. Abdul Karim National ID Card Bangladesh''
     = Some ''Abdul Karim National''"
  by code_simp

theorem blacklisted_never_returned_witness:
  "re_search False (name_patterns ! 2) ''Md. Abdul Karim National ID Card Bangladesh''
     = Some ''Abdul Karim National'' \<and>
   extract_nid_fields
     \<lparr>path_exists = (\<lambda>f. True),
      get_reader = Inr (\<lambda>i. Inr [PList [PNone, PStr ''Md. Abdul Karim National ID Card Bangladesh'']])\<rparr>
     (Ndarray ()) =
   Inr \<lparr>Name = [], Date_of_birth = [], ID_Number = [],
        Full_extracted_text = ''Md. Abdul Karim National ID Card Bangladesh'', error = None\<rparr> \<and>
   list_all (\<lambda>b. \<not> contains (lower b) (lower [])) name_blacklist"
  using blacklisted_never_returned [OF honorific_run] honorific_candidate honorific_run
  by (simp add: list_all_iff)

section \<open>C10: the ID Number holds digits only\<close>




section \<open>C3: accepting a name candidate\<close>







section \<open>C5: accepting an ID candidate\<close>

text \<open>
  Claim C5. Take group 1 of each ID pattern that matches, in pattern order, with whitespace and
  hyphens removed. The ID Number is the first of these candidates that has 10, 13 or 17
  characters (it is accepted and the scan stops there); when none has, it is the last
  candidate (each one was stored provisionally and the scan went on), and the value is left as
  it was when no pattern matches.
\<close>

theorem id_scan:
  "id_loop full_text ps cur =
     (case List.find canonical (id_candidates full_text ps) of
        Some c \<Rightarrow> c
      | None \<Rightarrow> last (cur # id_candidates full_text ps))"
proof (induction ps arbitrary: cur)
  case Nil
  show ?case by (simp add: id_candidates_Nil)
next
  case (Cons p ps)
  show ?case
  proof (cases "re_search False p full_text")
    case None
    then have "id_candidates full_text (p # ps) = id_candidates full_text ps"
      by (simp add: id_candidates_Cons)
    then show ?thesis using None Cons [of cur] by (simp split: option.split)
  next
    case (Some g)
    then have c: "id_candidates full_text (p # ps) = clean_id g # id_candidates full_text ps"
      by (simp add: id_candidates_Cons)
    show ?thesis using Some Cons [of "clean_id g"] unfolding c
      by (simp add: canonical_def split: option.split)
  qed
qed

text \<open>
  A provisional 16-digit value from the \<open>NID No\<close> pattern, then a 10-digit one that is
  accepted; and a text where the two candidates have 6 digits and the last is kept.
\<close>

lemma long_label_candidates:
  "id_candidates ''NID No: 12-34-56 78 1234567890'' id_patterns
     = [''1234567812345678'', ''1234567890'', ''123456781234567890'', ''1234567890'',
        ''1234567890''] \<and>
   id_candidates ''NID No: 12-34 56'' id_patterns = [''123456'', ''123456'']"
  by code_simp

theorem id_scan_witness:
  "id_loop ''NID No: 12-34-56 78 1234567890'' id_patterns [] = ''1234567890'' \<and>
   id_loop ''NID No: 12-34 56'' id_patterns [] = ''123456''"
  using id_scan [of "''NID No: 12-34-56 78 1234567890''" id_patterns "[]"]
    id_scan [of "''NID No: 12-34 56''" id_patterns "[]"] long_label_candidates
  by (simp add: canonical_def)

section \<open>C6: the date of birth\<close>

text \<open>
  Claim C6. There are four date patterns, searched without regard to case. The Date of birth
  is group 1, trimmed, of the first pattern in order that matches somewhere in the text, and
  the empty string when none matches. No calendar check is made: the witness has a day 35 and
  a month 13.
\<close>

theorem dob_first_pattern_wins:
  "length dob_patterns = 4 \<and>
   (\<forall>i < length dob_patterns. \<forall>g.
      re_search True (dob_patterns ! i) full_text = Some g \<and>
      (\<forall>j < i. re_search True (dob_patterns ! j) full_text = None) \<longrightarrow>
      Date_of_birth (extract_fields full_text nid_init) = strip g) \<and>
   ((\<forall>p \<in> set dob_patterns. re_search True p full_text = None) \<longrightarrow>
      Date_of_birth (extract_fields full_text nid_init) = [])"
proof -
  have d: "Date_of_birth (extract_fields full_text nid_init) = dob_loop full_text dob_patterns []"
    by (simp add: extract_fields_dob nid_init_def)
  have "length dob_patterns = 4" by (simp add: dob_patterns_def)
  then show ?thesis using dob_loop_first [of _ dob_patterns full_text _ "[]"]
      dob_loop_none [of dob_patterns full_text "[]"] unfolding d by blast
qed

lemma lower_case_label_matches:
  "re_search True (dob_patterns ! 0) ''dob 35/13/99'' = None \<and>
   re_search True (dob_patterns ! 1) ''dob 35/13/99'' = Some ''35/13/99'' \<and>
   strip ''35/13/99'' = ''35/13/99''"
  by code_simp

theorem dob_first_pattern_wins_witness:
  "re_search True (dob_patterns ! 0) ''dob 35/13/99'' = None \<and>
   re_search True (dob_patterns ! 1) ''dob 35/13/99'' = Some ''35/13/99'' \<and>
   Date_of_birth (extract_fields ''dob 35/13/99'' nid_init) = ''35/13/99''"
proof -
  have "1 < length dob_patterns" by (simp add: dob_patterns_def)
  moreover have "\<forall>j < 1. re_search True (dob_patterns ! j) ''dob 35/13/99'' = None"
    using lower_case_label_matches by simp
  ultimately have "Date_of_birth (extract_fields ''dob 35/13/99'' nid_init) = strip ''35/13/99''"
    using dob_first_pattern_wins [of "''dob 35/13/99''"] lower_case_label_matches by blast
  then show ?thesis using lower_case_label_matches by simp
qed

section \<open>C7: the labelled scenario\<close>

text \<open>
  Claim C7. For the text
  \<open>Name: JOHN MICHAEL SMITH Date of Birth: 05-Jan-1990 ID NO: 1234567890123\<close> the rules give
  Name \<open>JOHN MICHAEL SMITH\<close>, Date of birth \<open>05-Jan-1990\<close> and ID Number \<open>1234567890123\<close>;
  so does the function when the reader returns three blocks that join to this text.
\<close>

theorem labelled_scenario:
  "extract_fields ''Name: JOHN MICHAEL SMITH Date of Birth: 05-Jan-1990 ID NO: 1234567890123'' nid_init =
     \<lparr>Name = ''JOHN MICHAEL SMITH'', Date_of_birth = ''05-Jan-1990'',
      ID_Number = ''1234567890123'',
      Full_extracted_text = ''Name: JOHN MICHAEL SMITH Date of Birth: 05-Jan-1990 ID NO: 1234567890123'',
      error = None\<rparr> \<and>
   extract_nid_fields
     \<lparr>path_exists = (\<lambda>f. True),
      get_reader = Inr (\<lambda>i. Inr [PList [PNone, PStr ''Name: JOHN MICHAEL SMITH''],
                                  PList [PNone, PStr ''Date of Birth: 05-Jan-1990''],
                                  PList [PNone, PStr ''ID NO: 1234567890123'']])\<rparr>
     (Ndarray ()) =
   Inr \<lparr>Name = ''JOHN MICHAEL SMITH'', Date_of_birth = ''05-Jan-1990'',
        ID_Number = ''1234567890123'',
        Full_extracted_text = ''Name: JOHN MICHAEL SMITH Date of Birth: 05-Jan-1990 ID NO: 1234567890123'',
        error = None\<rparr>"
  by code_simp

section \<open>C8: the similarity report\<close>

text \<open>The choice of the slots, for any way of computing the ratio that does not raise.\<close>

lemma similarity_dispatch:
  assumes "ratio2 (upper (form_get form_name)) (upper (strip (Name result))) = Inr rn"
    and "ratio2 (upper (form_get form_dob)) (upper (strip (Date_of_birth result))) = Inr rd"
  shows "\<exists>resp. score ratio2 form_name form_dob result = Inr resp \<and>
     similarity resp =
       (if form_get form_name = [] \<and> form_get form_dob = []
        then [(''status'', JStr ''no_comparison_data_provided'')]
        else [(''status'', JStr ''partial_comparison''),
              (''name_similarity'',
                 if form_get form_name = [] then JNull
                 else if strip (Name result) = [] then JStr ''no_extracted_name_available''
                 else JNum rn),
              (''dob_similarity'',
                 if form_get form_dob = [] then JNull
                 else if strip (Date_of_birth result) = [] then JStr ''no_extracted_dob_available''
                 else JNum rd)])"
  using assms
  by (simp add: score_def similarity_try_def Let_def nid_data.defs response.defs)

text \<open>
  Claim C8. Let the two expected values be the form fields after trimming (empty when a field
  was not sent). When both are empty, and only then, the report is the single entry
  \<open>status = no_comparison_data_provided\<close>. Otherwise the report is
  \<open>status = partial_comparison\<close> with one slot per field: when the expected and the extracted
  value are both not empty, the ratio of the sequence matcher on the two upper-cased strings,
  rounded to two decimals; the text \<open>no_extracted_name_available\<close> or
  \<open>no_extracted_dob_available\<close> when only the expected value is there; null when the expected
  value was not supplied. The rounded ratio is 1.0 for identical strings, never more than 1.0,
  and within 0.005 of \<open>2 * M / T\<close>.
\<close>

theorem similarity_report:
  "(\<exists>resp. score difflib_ratio2 form_name form_dob result = Inr resp \<and>
     similarity resp =
       (if form_get form_name = [] \<and> form_get form_dob = []
        then [(''status'', JStr ''no_comparison_data_provided'')]
        else [(''status'', JStr ''partial_comparison''),
              (''name_similarity'',
                 if form_get form_name = [] then JNull
                 else if strip (Name result) = [] then JStr ''no_extracted_name_available''
                 else JNum (sm_ratio2 (upper (form_get form_name)) (upper (strip (Name result))))),
              (''dob_similarity'',
                 if form_get form_dob = [] then JNull
                 else if strip (Date_of_birth result) = [] then JStr ''no_extracted_dob_available''
                 else JNum (sm_ratio2 (upper (form_get form_dob))
                              (upper (strip (Date_of_birth result)))))])) \<and>
   sm_ratio2 u u = 100 \<and>
   sm_ratio2 a b \<le> 100 \<and>
   (a \<noteq> [] \<or> b \<noteq> [] \<longrightarrow>
      \<bar>2 * int (sm_ratio2 a b) * int (length a + length b)
         - 200 * int (2 * sm_matches (popular b) a b)\<bar> \<le> int (length a + length b))"
  using similarity_dispatch [of difflib_ratio2 form_name result _ form_dob _]
    sm_ratio2_same [of u] sm_ratio2_le [of a b] sm_ratio2_near [of a b]
  by (simp add: difflib_ratio2_def)

text \<open>
  The expected name differs from the extracted one in case and in one letter: the blocks are
  \<open>JOHN SM\<close> and \<open>TH\<close>, 9 of 10 characters on each side, ratio 0.9. The dates are equal once
  upper-cased.
\<close>

lemma smyth_values:
  "form_get (Some ''  John Smyth '') = ''John Smyth'' \<and>
   form_get (Some ''05-jan-1990'') = ''05-jan-1990'' \<and>
   strip ''JOHN SMITH'' = ''JOHN SMITH'' \<and> strip ''05-Jan-1990'' = ''05-Jan-1990'' \<and>
   sm_ratio2 (upper ''John Smyth'') (upper ''JOHN SMITH'') = 90 \<and>
   upper ''05-jan-1990'' = upper ''05-Jan-1990''"
  by code_simp

theorem similarity_report_witness:
  "\<exists>resp. score difflib_ratio2 (Some ''  John Smyth '') (Some ''05-jan-1990'')
       \<lparr>Name = ''JOHN SMITH'', Date_of_birth = ''05-Jan-1990'', ID_Number = [],
        Full_extracted_text = ''JOHN SMITH 05-Jan-1990'', error = None\<rparr> = Inr resp \<and>
     similarity resp = [(''status'', JStr ''partial_comparison''), (''name_similarity'', JNum 90),
                        (''dob_similarity'', JNum 100)]"
proof -
  have d: "sm_ratio2 (upper ''05-Jan-1990'') (upper ''05-Jan-1990'') = 100"
    using similarity_report [of None None nid_init "upper ''05-Jan-1990''" "[]" "[]"] by blast
  have "\<exists>resp. score difflib_ratio2 (Some ''  John Smyth '') (Some ''05-jan-1990'')
       \<lparr>Name = ''JOHN SMITH'', Date_of_birth = ''05-Jan-1990'', ID_Number = [],
        Full_extracted_text = ''JOHN SMITH 05-Jan-1990'', error = None\<rparr> = Inr resp \<and>
     similarity resp = [(''status'', JStr ''partial_comparison''), (''name_similarity'', JNum 90),
       (''dob_similarity'', JNum (sm_ratio2 (upper ''05-Jan-1990'') (upper ''05-Jan-1990'')))]"
    using similarity_report [of "Some ''  John Smyth ''" "Some ''05-jan-1990''"
      "\<lparr>Name = ''JOHN SMITH'', Date_of_birth = ''05-Jan-1990'', ID_Number = [],
        Full_extracted_text = ''JOHN SMITH 05-Jan-1990'', error = None\<rparr>" "[]" "[]" "[]"]
      smyth_values
    by simp
  then show ?thesis unfolding d .
qed

section \<open>C9: a fault while scoring\<close>

text \<open>
  Claim C9. The similarity block always yields a response (no exception leaves it). The
  response has the Name, Date of birth, ID Number, Full extracted text and error of the
  extraction result, unchanged. When a ratio computation that the block makes raises, the
  similarity of the response is the single entry \<open>status = error_calculating_similarity\<close>.
\<close>

theorem similarity_fault_contained:
  "\<exists>resp. score ratio2 form_name form_dob result = Inr resp \<and>
     Name resp = Name result \<and> Date_of_birth resp = Date_of_birth result \<and>
     ID_Number resp = ID_Number result \<and>
     Full_extracted_text resp = Full_extracted_text result \<and> error resp = error result \<and>
     ((form_get form_name \<noteq> [] \<and> strip (Name result) \<noteq> [] \<and>
         (\<exists>e. ratio2 (upper (form_get form_name)) (upper (strip (Name result))) = Inl e)) \<or>
      (form_get form_dob \<noteq> [] \<and> strip (Date_of_birth result) \<noteq> [] \<and>
         (\<exists>e. ratio2 (upper (form_get form_dob)) (upper (strip (Date_of_birth result))) = Inl e))
      \<longrightarrow> similarity resp = [(''status'', JStr ''error_calculating_similarity'')])"
  by (auto simp: score_def similarity_try_def Let_def nid_data.defs response.defs
      split: sum.splits)

lemma expected_values:
  "form_get (Some ''John'') = ''John'' \<and> form_get None = [] \<and> strip ''JOHN SMITH'' = ''JOHN SMITH''"
  by code_simp

theorem similarity_fault_contained_witness:
  "\<exists>resp. score (\<lambda>a b. Inl ''fault'' :: string + nat) (Some ''John'') None
       \<lparr>Name = ''JOHN SMITH'', Date_of_birth = ''05-Jan-1990'', ID_Number = ''1234567890'',
        Full_extracted_text = ''JOHN SMITH 05-Jan-1990 1234567890'', error = None\<rparr> = Inr resp \<and>
     Name resp = ''JOHN SMITH'' \<and> Date_of_birth resp = ''05-Jan-1990'' \<and>
     ID_Number resp = ''1234567890'' \<and>
     Full_extracted_text resp = ''JOHN SMITH 05-Jan-1990 1234567890'' \<and> error resp = None \<and>
     similarity resp = [(''status'', JStr ''error_calculating_similarity'')]"
  using similarity_fault_contained [of "\<lambda>a b. Inl ''fault'' :: string + nat" "Some ''John''" None
      "\<lparr>Name = ''JOHN SMITH'', Date_of_birth = ''05-Jan-1990'', ID_Number = ''1234567890'',
        Full_extracted_text = ''JOHN SMITH 05-Jan-1990 1234567890'', error = None\<rparr>"]
    expected_values
  by simp

end
